theory Spec2Isabelle
  imports Complex_Main
begin

section \<open>The mass-spring chain of Feder-Masse-Kette.py\<close>

text \<open>
  The program builds a horizontal chain of \<open>N_MASSES\<close> point masses joined by damped
  springs between a kinematic anchor on the left and a static wall on the right, and
  drives it from a frame loop: keyboard events, a one-shot timer that lifts the left
  anchor, and two physics sub-steps per frame.

  Python floats are modelled as real numbers: every arithmetic expression of the source
  is the same expression over \<open>real\<close>, with no rounding. Rendering (\<open>_draw\<close>, colours,
  the clock and the window caption) has no effect on the simulation state and is left out.
\<close>

subsection \<open>Configurable parameters (module constants)\<close>

type_synonym vec = "real \<times> real"

definition N_MASSES :: nat where "N_MASSES = 150"
definition MASS_KG :: real where "MASS_KG = 0.05"
definition L0_M :: real where "L0_M = 0.1"
definition LV_M :: real where "LV_M = 0.12"
definition PIXELS_PER_METER :: real where "PIXELS_PER_METER = 50.0"
definition SPRING_STIFFNESS :: real where "SPRING_STIFFNESS = 1200.0"
definition SPRING_DAMPING :: real where "SPRING_DAMPING = 8.0"
definition SPACE_DAMPING :: real where "SPACE_DAMPING = 1.0"
definition IMPULSE_TIME_S :: real where "IMPULSE_TIME_S = 0.25"
definition ANCHOR_LIFT_M :: real where "ANCHOR_LIFT_M = 0.5"
definition WIDTH :: nat where "WIDTH = 1200"
definition HEIGHT :: nat where "HEIGHT = 600"
definition MASS_RADIUS_PX :: real where "MASS_RADIUS_PX = 2"

definition m_to_px :: "real \<Rightarrow> real" where
  "m_to_px x_m = x_m * PIXELS_PER_METER"

subsection \<open>Bodies, shapes and springs\<close>

text \<open>
  A \<open>pymunk.Body\<close> is a record of the attributes the program reads or writes. A body
  created without arguments other than its type has mass and moment 0, and every new
  body has velocity \<open>(0, 0)\<close>.
\<close>

datatype body_type = DYNAMIC | KINEMATIC | STATIC

record body =
  body_type :: body_type
  mass :: real
  moment :: real
  position :: vec
  velocity :: vec

text \<open>
  Springs and shapes hold references to body objects. A reference is either the left
  anchor (\<open>self.left_anchor\<close>), the body at an index of \<open>self.bodies\<close>, or the right
  anchor (\<open>self.right_anchor\<close>, the static body of the space, which sits at the origin).
  The list \<open>self.bodies\<close> only grows by \<open>append\<close>, so an index names the same body for
  the lifetime of a chain.
\<close>

datatype body_ref = Left_anchor | Bodies nat | Right_anchor

datatype shape =
    Circle body_ref real
  | Segment body_ref vec vec real

record spring =
  spring_a :: body_ref
  spring_b :: body_ref
  anchor_a :: vec
  anchor_b :: vec
  rest_length :: real
  stiffness :: real
  spring_damping :: real

definition DampedSpring ::
  "body_ref \<Rightarrow> body_ref \<Rightarrow> vec \<Rightarrow> vec \<Rightarrow> real \<Rightarrow> real \<Rightarrow> real \<Rightarrow> spring" where
  "DampedSpring a b aa ab rl k c =
     \<lparr>spring_a = a, spring_b = b, anchor_a = aa, anchor_b = ab,
      rest_length = rl, stiffness = k, spring_damping = c\<rparr>"

definition moment_for_circle :: "real \<Rightarrow> real \<Rightarrow> real \<Rightarrow> real" where
  \<comment> \<open>\<open>pymunk.moment_for_circle(mass, inner_radius, outer_radius)\<close> with offset \<open>(0, 0)\<close>\<close>
  "moment_for_circle m r1 r2 = m * (0.5 * (r1 * r1 + r2 * r2))"

subsection \<open>The chain and \<open>_build_chain\<close>\<close>

text \<open>
  The attributes written by \<open>_build_chain\<close> form the chain. Everything it creates, the
  left anchor apart, is added to the space, so the content of the space is the three
  lists and the wall segment.
\<close>

record chain =
  left_anchor :: body
  left_anchor_base :: vec
  right_anchor_pos :: vec
  wall_shape :: shape
  bodies :: "body list"
  shapes :: "shape list"
  springs :: "spring list"

definition new_mass :: "real \<Rightarrow> real \<Rightarrow> real \<Rightarrow> nat \<Rightarrow> body" where
  \<comment> \<open>the body created in iteration \<open>i\<close> of the first loop\<close>
  "new_mass start_x span_px baseline_y i =
     \<lparr>body_type = DYNAMIC, mass = MASS_KG,
      moment = moment_for_circle MASS_KG 0 MASS_RADIUS_PX,
      position = (start_x + (real i + 1) * span_px, baseline_y),
      velocity = (0, 0)\<rparr>"

text \<open>
  \<open>_build_chain\<close> appends to the lists it finds in \<open>self.bodies\<close>, \<open>self.shapes\<close> and
  \<open>self.springs\<close>; they are its three arguments. The circle of a new body refers to the
  index the body gets in the list. \<open>self.bodies[0]\<close> and \<open>self.bodies[-1]\<close> are read after
  \<open>N_MASSES = 150\<close> bodies have been appended, so neither can raise.
\<close>

definition build_chain :: "body list \<Rightarrow> shape list \<Rightarrow> spring list \<Rightarrow> chain" where
  "build_chain bodies0 shapes0 springs0 =
     (let rest_px = m_to_px L0_M;
          span_px = m_to_px LV_M;
          start_x = 100.0;
          baseline_y = real HEIGHT * 0.5;
          anchor = \<lparr>body_type = KINEMATIC, mass = 0, moment = 0,
                    position = (start_x, baseline_y), velocity = (0, 0)\<rparr>;
          wall_x = start_x + (real N_MASSES + 1) * span_px;
          wall_pos = (wall_x, baseline_y);
          wall = Segment Right_anchor (wall_x, 40) (wall_x, real HEIGHT - 40) 1.0;
          masses = foldl (\<lambda>(bs, shs) i.
                      (bs @ [new_mass start_x span_px baseline_y i],
                       shs @ [Circle (Bodies (length bs)) MASS_RADIUS_PX]))
                    (bodies0, shapes0) [0..<N_MASSES];
          bs = fst masses;
          s0 = DampedSpring Left_anchor (Bodies 0) (0, 0) (0, 0)
                 rest_px SPRING_STIFFNESS SPRING_DAMPING;
          springs1 = springs0 @ [s0];
          springs2 = foldl (\<lambda>sps i.
                       sps @ [DampedSpring (Bodies (i - 1)) (Bodies i) (0, 0) (0, 0)
                                rest_px SPRING_STIFFNESS SPRING_DAMPING])
                     springs1 [1..<N_MASSES];
          s_last = DampedSpring (Bodies (length bs - 1)) Right_anchor (0, 0) wall_pos
                     rest_px SPRING_STIFFNESS SPRING_DAMPING
      in \<lparr>left_anchor = anchor,
          left_anchor_base = (start_x, baseline_y),
          right_anchor_pos = wall_pos,
          wall_shape = wall,
          bodies = bs,
          shapes = snd masses,
          springs = springs2 @ [s_last]\<rparr>)"

subsection \<open>The simulation object and \<open>__init__\<close>\<close>

record sim =
  gravity_presets :: "vec list"
  gravity_index :: nat
  space_gravity :: vec
  damping :: real
  space_damping :: real
  impulse_time_s :: real
  anchor_lift_m :: real
  dt :: real
  physics_steps_per_frame :: nat
  chain :: chain
  running :: bool
  time_accum :: real
  impulse_applied :: bool

definition init_sim :: sim where
  "init_sim =
     (let presets = [(0.0, 0.0), (0.0, 9.81 * PIXELS_PER_METER)]
      in \<lparr>gravity_presets = presets,
          gravity_index = 0,
          space_gravity = presets ! 0,
          damping = SPACE_DAMPING,
          space_damping = SPACE_DAMPING,
          impulse_time_s = IMPULSE_TIME_S,
          anchor_lift_m = ANCHOR_LIFT_M,
          dt = 1.0 / 120.0,
          physics_steps_per_frame = 2,
          chain = build_chain [] [] [],
          running = True,
          time_accum = 0.0,
          impulse_applied = False\<rparr>)"

subsection \<open>The impulse, the key handler and the reset\<close>

definition apply_first_spring_impulse :: "sim \<Rightarrow> sim" where
  "apply_first_spring_impulse s =
     (let lift_px = m_to_px (anchor_lift_m s);
          (x, y) = position (left_anchor (chain s))
      in s\<lparr>chain := (chain s)\<lparr>left_anchor := (left_anchor (chain s))\<lparr>position := (x, y - lift_px)\<rparr>\<rparr>,
           impulse_applied := True\<rparr>)"

definition reset_sim :: "sim \<Rightarrow> sim" where
  "reset_sim s =
     s\<lparr>space_gravity := gravity_presets s ! gravity_index s,
       space_damping := damping s,
       chain := build_chain [] [] [],
       time_accum := 0.0,
       impulse_applied := False\<rparr>"

datatype key =
  K_ESCAPE | K_g | K_1 | K_2 | K_3 | K_4 | K_5 | K_6 | K_i | K_r | K_OTHER

datatype event = QUIT | KEYDOWN key | OTHER_EVENT

text \<open>
  The body of the loop over \<open>pygame.event.get()\<close>. The list of presets always has two
  entries, so the modulus is never zero and the index read is in range.
\<close>

fun handle_event :: "event \<Rightarrow> sim \<Rightarrow> sim" where
  "handle_event QUIT s = s\<lparr>running := False\<rparr>"
| "handle_event (KEYDOWN K_ESCAPE) s = s\<lparr>running := False\<rparr>"
| "handle_event (KEYDOWN K_g) s =
     (let gi = (gravity_index s + 1) mod length (gravity_presets s)
      in s\<lparr>gravity_index := gi, space_gravity := gravity_presets s ! gi\<rparr>)"
| "handle_event (KEYDOWN K_1) s =
     (let d = max 0.0 (damping s - 0.01) in s\<lparr>damping := d, space_damping := d\<rparr>)"
| "handle_event (KEYDOWN K_2) s =
     (let d = min 0.999 (damping s + 0.01) in s\<lparr>damping := d, space_damping := d\<rparr>)"
| "handle_event (KEYDOWN K_3) s = s\<lparr>anchor_lift_m := max 0.0 (anchor_lift_m s - 0.05)\<rparr>"
| "handle_event (KEYDOWN K_4) s = s\<lparr>anchor_lift_m := min 2.0 (anchor_lift_m s + 0.05)\<rparr>"
| "handle_event (KEYDOWN K_5) s = s\<lparr>impulse_time_s := max 0.0 (impulse_time_s s - 0.05)\<rparr>"
| "handle_event (KEYDOWN K_6) s = s\<lparr>impulse_time_s := min 5.0 (impulse_time_s s + 0.05)\<rparr>"
| "handle_event (KEYDOWN K_i) s =
     (if \<not> impulse_applied s then apply_first_spring_impulse s else s)"
| "handle_event (KEYDOWN K_r) s = reset_sim s"
| "handle_event (KEYDOWN K_OTHER) s = s"
| "handle_event OTHER_EVENT s = s"

definition process_events :: "event list \<Rightarrow> sim \<Rightarrow> sim" where
  "process_events evs s = foldl (\<lambda>s e. handle_event e s) s evs"

subsection \<open>The physics step\<close>

definition vadd :: "vec \<Rightarrow> vec \<Rightarrow> vec" where
  "vadd p q = (fst p + fst q, snd p + snd q)"

definition vsub :: "vec \<Rightarrow> vec \<Rightarrow> vec" where
  "vsub p q = (fst p - fst q, snd p - snd q)"

definition vscale :: "real \<Rightarrow> vec \<Rightarrow> vec" where
  "vscale k p = (k * fst p, k * snd p)"

definition dot :: "vec \<Rightarrow> vec \<Rightarrow> real" where
  "dot p q = fst p * fst q + snd p * snd q"

definition vlen :: "vec \<Rightarrow> real" where
  "vlen p = sqrt (fst p * fst p + snd p * snd p)"

text \<open>
  The world position of a spring's attachment point: the position of the body plus the
  anchor given to the spring (no body of the chain ever rotates off angle 0). The static
  body of the space is at the origin.
\<close>

definition endpoint_position :: "chain \<Rightarrow> body_ref \<Rightarrow> vec \<Rightarrow> vec" where
  "endpoint_position c r a =
     (case r of
        Left_anchor \<Rightarrow> vadd (position (left_anchor c)) a
      | Bodies i \<Rightarrow> vadd (position (bodies c ! i)) a
      | Right_anchor \<Rightarrow> vadd (0, 0) a)"

definition endpoint_velocity :: "chain \<Rightarrow> body_ref \<Rightarrow> vec" where
  "endpoint_velocity c r =
     (case r of Bodies i \<Rightarrow> velocity (bodies c ! i) | _ \<Rightarrow> (0, 0))"

definition spring_length :: "chain \<Rightarrow> spring \<Rightarrow> real" where
  "spring_length c sp =
     vlen (vsub (endpoint_position c (spring_b sp) (anchor_b sp))
                (endpoint_position c (spring_a sp) (anchor_a sp)))"

text \<open>
  Modelled from the spec: \<open>self.space.step(self.dt)\<close> is pymunk's integrator, which is not
  part of the repository. The spec describes it in sections 4.2 (the force law of a spring)
  and 4.3 (the step): the force of a spring on its second endpoint is \<open>F \<cdot> unit\<close> with
  \<open>F = k \<cdot> x + c \<cdot> vrel\<close>, \<open>x = len - l0\<close>, and \<open>unit\<close> the direction from the first to the
  second endpoint (a fixed default \<open>(1, 0)\<close> at length 0); the first endpoint receives the
  opposite force; anchors contribute velocity 0 and ignore the force they receive.
\<close>

definition spring_force :: "chain \<Rightarrow> spring \<Rightarrow> vec" where
  "spring_force c sp =
     (let p1 = endpoint_position c (spring_a sp) (anchor_a sp);
          p2 = endpoint_position c (spring_b sp) (anchor_b sp);
          d = vsub p2 p1;
          len = vlen d;
          unit = (if len > 0 then vscale (1 / len) d else (1, 0));
          x = len - rest_length sp;
          vrel = dot (vsub (endpoint_velocity c (spring_b sp))
                           (endpoint_velocity c (spring_a sp))) unit;
          F = stiffness sp * x + spring_damping sp * vrel
      in vscale F unit)"

text \<open>
  Modelled from the spec: steps 1 to 3 of section 4.3, the force accumulated on the body
  at index \<open>i\<close>: from zero, the force pair of every spring that has the body as an
  endpoint, then mass times gravity.
\<close>

definition accumulated_force :: "chain \<Rightarrow> vec \<Rightarrow> nat \<Rightarrow> vec" where
  "accumulated_force c g i =
     vadd (foldl (\<lambda>acc sp.
                    (let f = spring_force c sp;
                         acc1 = (if spring_b sp = Bodies i then vadd acc f else acc)
                      in if spring_a sp = Bodies i then vadd acc1 (vscale (- 1) f) else acc1))
                 (0, 0) (springs c))
          (vscale (mass (bodies c ! i)) g)"

text \<open>
  Modelled from the spec: steps 4 to 6 of section 4.3 for one body: the velocity from the
  accumulated force, the global damping factor, then the position from the new velocity.
\<close>

definition integrate_body :: "real \<Rightarrow> real \<Rightarrow> vec \<Rightarrow> body \<Rightarrow> body" where
  "integrate_body h damp f b =
     (let v1 = vadd (velocity b) (vscale h (vscale (1 / mass b) f));
          v2 = vscale damp v1
      in b\<lparr>velocity := v2, position := vadd (position b) (vscale h v2)\<rparr>)"

text \<open>
  Modelled from the spec: \<open>step(chain, dt)\<close> of section 4.3. It updates every body of the
  chain from the forces at the start of the step; a non-positive \<open>dt\<close> makes it a no-op.
\<close>

definition space_step :: "real \<Rightarrow> sim \<Rightarrow> sim" where
  "space_step h s =
     (if h \<le> 0 then s
      else s\<lparr>chain := (chain s)\<lparr>bodies :=
             map (\<lambda>i. integrate_body h (space_damping s)
                        (accumulated_force (chain s) (space_gravity s) i) (bodies (chain s) ! i))
                 [0..<length (bodies (chain s))]\<rparr>\<rparr>)"

subsection \<open>The frame loop \<open>run\<close>\<close>

text \<open>
  One iteration of the loop has three parts that change the state: the events, the
  one-shot timer of the impulse, and the physics sub-steps.
\<close>

definition run_impulse_timer :: "sim \<Rightarrow> sim" where
  "run_impulse_timer s =
     (if \<not> impulse_applied s then
        (let s1 = s\<lparr>time_accum := time_accum s + dt s * real (physics_steps_per_frame s)\<rparr>
         in if time_accum s1 \<ge> impulse_time_s s1 then apply_first_spring_impulse s1 else s1)
      else s)"

definition run_physics :: "sim \<Rightarrow> sim" where
  \<comment> \<open>\<open>range(self.physics_steps_per_frame)\<close> is read once, \<open>self.dt\<close> in every sub-step\<close>
  "run_physics s = ((\<lambda>s. space_step (dt s) s) ^^ physics_steps_per_frame s) s"

definition run_iteration :: "event list \<Rightarrow> sim \<Rightarrow> sim" where
  "run_iteration evs s = run_physics (run_impulse_timer (process_events evs s))"

text \<open>
  The loop runs while \<open>self.running\<close> holds, and an iteration that clears the flag still
  runs to its end. Its input is the list of the events of each frame; the result is the
  state when the loop ends or when the frames given are used up.
\<close>

fun run :: "event list list \<Rightarrow> sim \<Rightarrow> sim" where
  "run [] s = s"
| "run (evs # frames) s = (if running s then run frames (run_iteration evs s) else s)"

subsection \<open>An invariant of the frame loop\<close>

text \<open>
  What every state the loop passes through has in common: the two gravity presets, an
  index into them with the gravity of the space equal to the preset selected, the tunable
  parameters in their ranges, the fixed time step and sub-step count, and the wall.
\<close>

definition params_ok :: "sim \<Rightarrow> bool" where
  "params_ok s \<longleftrightarrow>
     gravity_presets s = [(0, 0), (0, 9.81 * PIXELS_PER_METER)]
     \<and> gravity_index s < 2
     \<and> space_gravity s = gravity_presets s ! gravity_index s
     \<and> 0 \<le> damping s \<and> damping s \<le> 1
     \<and> space_damping s = damping s
     \<and> 0 \<le> anchor_lift_m s \<and> anchor_lift_m s \<le> 2
     \<and> 0 \<le> impulse_time_s s \<and> impulse_time_s s \<le> 5
     \<and> dt s = 1 / 120
     \<and> physics_steps_per_frame s = 2
     \<and> right_anchor_pos (chain s) = (1006, 300)"

section \<open>Properties of a freshly built chain\<close>

subsection \<open>The loops of \<open>_build_chain\<close> as maps\<close>

lemma foldl_masses_fst:
  "fst (foldl (\<lambda>(bs, shs) i. (bs @ [f i], shs @ [g bs])) (bs0, shs0) xs) = bs0 @ map f xs"
  by (induction xs arbitrary: bs0 shs0) simp_all

lemma foldl_masses_snd:
  "snd (foldl (\<lambda>(bs, shs) i. (bs @ [f i], shs @ [g (length bs)])) (bs0, shs0) xs)
     = shs0 @ map (\<lambda>k. g (length bs0 + k)) [0..<length xs]"
proof (induction xs arbitrary: bs0 shs0)
  case Nil
  then show ?case by simp
next
  case (Cons x xs)
  have "map (\<lambda>k. g (length bs0 + k)) [0..<Suc (length xs)]
          = g (length bs0) # map (\<lambda>k. g (Suc (length bs0 + k))) [0..<length xs]"
    by (simp add: upt_conv_Cons map_Suc_upt [symmetric] del: upt_Suc)
  with Cons show ?case by simp
qed

lemma foldl_snoc_map: "foldl (\<lambda>acc i. acc @ [h i]) acc0 xs = acc0 @ map h xs"
  by (induction xs arbitrary: acc0) simp_all

lemma bodies_build_chain:
  "bodies (build_chain bodies0 shapes0 springs0)
     = bodies0 @ map (new_mass 100 (m_to_px LV_M) (real HEIGHT * 0.5)) [0..<N_MASSES]"
  by (simp add: build_chain_def Let_def foldl_masses_fst)

lemma shapes_build_chain:
  "shapes (build_chain bodies0 shapes0 springs0)
     = shapes0 @ map (\<lambda>k. Circle (Bodies (length bodies0 + k)) MASS_RADIUS_PX) [0..<N_MASSES]"
  using foldl_masses_snd [of _ "\<lambda>n. Circle (Bodies n) MASS_RADIUS_PX" bodies0 shapes0 "[0..<N_MASSES]"]
  by (simp add: build_chain_def Let_def)

lemma springs_build_chain:
  "springs (build_chain bodies0 shapes0 springs0)
     = springs0 @ [DampedSpring Left_anchor (Bodies 0) (0, 0) (0, 0)
                     (m_to_px L0_M) SPRING_STIFFNESS SPRING_DAMPING]
       @ map (\<lambda>i. DampedSpring (Bodies (i - 1)) (Bodies i) (0, 0) (0, 0)
                     (m_to_px L0_M) SPRING_STIFFNESS SPRING_DAMPING) [1..<N_MASSES]
       @ [DampedSpring (Bodies (length bodies0 + N_MASSES - 1)) Right_anchor (0, 0)
            (100 + (real N_MASSES + 1) * m_to_px LV_M, real HEIGHT * 0.5)
            (m_to_px L0_M) SPRING_STIFFNESS SPRING_DAMPING]"
  by (simp add: build_chain_def Let_def foldl_masses_fst foldl_snoc_map)

subsection \<open>Topology\<close>

lemma springs_fresh_first:
  "springs (build_chain [] [] []) ! 0
     = DampedSpring Left_anchor (Bodies 0) (0, 0) (0, 0)
         (m_to_px L0_M) SPRING_STIFFNESS SPRING_DAMPING"
  by (simp add: springs_build_chain)

lemma springs_fresh_between:
  assumes "1 \<le> i" and "i < N_MASSES"
  shows "springs (build_chain [] [] []) ! i
     = DampedSpring (Bodies (i - 1)) (Bodies i) (0, 0) (0, 0)
         (m_to_px L0_M) SPRING_STIFFNESS SPRING_DAMPING"
proof -
  from assms obtain j where j: "i = Suc j" and "j < N_MASSES - 1"
    by (cases i) auto
  then show ?thesis
    by (simp add: springs_build_chain nth_append)
qed

lemma springs_fresh_last:
  "springs (build_chain [] [] []) ! N_MASSES
     = DampedSpring (Bodies (N_MASSES - 1)) Right_anchor (0, 0)
         (100 + (real N_MASSES + 1) * m_to_px LV_M, real HEIGHT * 0.5)
         (m_to_px L0_M) SPRING_STIFFNESS SPRING_DAMPING"
proof -
  have "0 < N_MASSES" by (simp add: N_MASSES_def)
  then obtain n where "N_MASSES = Suc n" by (cases N_MASSES) auto
  then show ?thesis
    by (simp add: springs_build_chain nth_append)
qed

lemma length_springs_fresh: "length (springs (build_chain [] [] [])) = N_MASSES + 1"
  by (simp add: springs_build_chain N_MASSES_def)

lemma length_bodies_fresh: "length (bodies (build_chain [] [] [])) = N_MASSES"
  by (simp add: bodies_build_chain)

text \<open>
  Claim C1. For the configured \<open>N_MASSES = 150\<close>, the chain built from empty lists (as
  \<open>__init__\<close> and the reset do) has \<open>N_MASSES\<close> bodies and \<open>N_MASSES + 1\<close> springs:
  spring 0 joins the left anchor to body 0, spring \<open>i\<close> with \<open>1 \<le> i < N_MASSES\<close> joins
  body \<open>i - 1\<close> to body \<open>i\<close>, and spring \<open>N_MASSES\<close> joins the last body to the right
  anchor.
\<close>

theorem fresh_chain_topology:
  "chain init_sim = build_chain [] [] []
   \<and> N_MASSES = 150
   \<and> length (bodies (build_chain [] [] [])) = N_MASSES
   \<and> length (springs (build_chain [] [] [])) = N_MASSES + 1
   \<and> spring_a (springs (build_chain [] [] []) ! 0) = Left_anchor
   \<and> spring_b (springs (build_chain [] [] []) ! 0) = Bodies 0
   \<and> (1 \<le> i \<and> i < N_MASSES \<longrightarrow>
        spring_a (springs (build_chain [] [] []) ! i) = Bodies (i - 1)
        \<and> spring_b (springs (build_chain [] [] []) ! i) = Bodies i)
   \<and> spring_a (springs (build_chain [] [] []) ! N_MASSES) = Bodies (N_MASSES - 1)
   \<and> spring_b (springs (build_chain [] [] []) ! N_MASSES) = Right_anchor"
proof -
  have "chain init_sim = build_chain [] [] []"
    by (simp add: init_sim_def Let_def)
  moreover have "N_MASSES = 150"
    by (rule N_MASSES_def)
  moreover have "1 \<le> i \<and> i < N_MASSES \<longrightarrow>
        spring_a (springs (build_chain [] [] []) ! i) = Bodies (i - 1)
        \<and> spring_b (springs (build_chain [] [] []) ! i) = Bodies i"
    by (simp add: springs_fresh_between DampedSpring_def)
  ultimately show ?thesis
    by (simp only: length_bodies_fresh length_springs_fresh springs_fresh_first
        springs_fresh_last DampedSpring_def spring.simps simp_thms)
qed

theorem fresh_chain_topology_witness:
  "(1::nat) \<le> 75 \<and> 75 < N_MASSES
   \<and> spring_a (springs (build_chain [] [] []) ! 75) = Bodies 74
   \<and> spring_b (springs (build_chain [] [] []) ! 75) = Bodies 75"
  using fresh_chain_topology [of 75] by (simp add: N_MASSES_def)

subsection \<open>Geometry\<close>

lemma span_px_value: "m_to_px LV_M = 6"
  by (simp add: m_to_px_def LV_M_def PIXELS_PER_METER_def)

lemma rest_px_value: "m_to_px L0_M = 5"
  by (simp add: m_to_px_def L0_M_def PIXELS_PER_METER_def)

lemma vlen_horizontal: "vlen (x, 0) = \<bar>x\<bar>"
  by (simp add: vlen_def)

lemma position_bodies_fresh:
  "i < N_MASSES \<Longrightarrow>
     position (bodies (build_chain [] [] []) ! i) = (100 + (real i + 1) * m_to_px LV_M, 300)"
  by (simp add: bodies_build_chain new_mass_def HEIGHT_def)

lemma left_anchor_fresh:
  "left_anchor (build_chain bodies0 shapes0 springs0)
     = \<lparr>body_type = KINEMATIC, mass = 0, moment = 0, position = (100, 300), velocity = (0, 0)\<rparr>"
  by (simp add: build_chain_def Let_def HEIGHT_def)

lemma left_anchor_base_fresh:
  "left_anchor_base (build_chain bodies0 shapes0 springs0) = (100, 300)"
  by (simp add: build_chain_def Let_def HEIGHT_def)

lemma right_anchor_pos_fresh:
  "right_anchor_pos (build_chain bodies0 shapes0 springs0)
     = (100 + (real N_MASSES + 1) * m_to_px LV_M, 300)"
  by (simp add: build_chain_def Let_def HEIGHT_def)

lemma spring_length_fresh_first:
  "spring_length (build_chain [] [] []) (springs (build_chain [] [] []) ! 0) = m_to_px LV_M"
proof -
  have "0 < N_MASSES" by (simp add: N_MASSES_def)
  then show ?thesis
    by (simp add: springs_fresh_first spring_length_def DampedSpring_def endpoint_position_def
        left_anchor_fresh position_bodies_fresh vadd_def vsub_def vlen_horizontal span_px_value)
qed

lemma spring_length_fresh_between:
  assumes "1 \<le> i" and "i < N_MASSES"
  shows "spring_length (build_chain [] [] []) (springs (build_chain [] [] []) ! i) = m_to_px LV_M"
proof -
  from assms have "i - 1 < N_MASSES" and "real (i - 1) = real i - 1"
    by simp_all
  with assms show ?thesis
    by (simp add: springs_fresh_between spring_length_def DampedSpring_def endpoint_position_def
        position_bodies_fresh vadd_def vsub_def vlen_horizontal span_px_value)
qed

lemma spring_length_fresh_last:
  "spring_length (build_chain [] [] []) (springs (build_chain [] [] []) ! N_MASSES) = m_to_px LV_M"
proof -
  have "N_MASSES - 1 < N_MASSES" and "real (N_MASSES - 1) = real N_MASSES - 1"
    by (simp_all add: N_MASSES_def)
  then show ?thesis
    by (simp add: springs_fresh_last spring_length_def DampedSpring_def endpoint_position_def
        position_bodies_fresh vadd_def vsub_def vlen_horizontal span_px_value HEIGHT_def)
qed

lemma spring_length_fresh:
  assumes "i \<le> N_MASSES"
  shows "spring_length (build_chain [] [] []) (springs (build_chain [] [] []) ! i) = m_to_px LV_M"
proof -
  consider "i = 0" | "1 \<le> i" "i < N_MASSES" | "i = N_MASSES"
    using assms by linarith
  then show ?thesis
    by cases (simp_all add: spring_length_fresh_first spring_length_fresh_between
        spring_length_fresh_last)
qed

lemma rest_length_fresh:
  assumes "i \<le> N_MASSES"
  shows "rest_length (springs (build_chain [] [] []) ! i) = m_to_px L0_M"
proof -
  consider "i = 0" | "1 \<le> i" "i < N_MASSES" | "i = N_MASSES"
    using assms by linarith
  then show ?thesis
    by cases (simp_all add: springs_fresh_first springs_fresh_between springs_fresh_last
        DampedSpring_def)
qed

text \<open>
  Claim C9. In a freshly built chain the left anchor is at \<open>start_x = 100\<close>, body \<open>i\<close> at
  \<open>start_x + (i + 1) \<cdot> span\<close> and the wall at \<open>start_x + (N_MASSES + 1) \<cdot> span\<close>, all at
  the same height, with \<open>span\<close> the pre-tension spacing \<open>LV_M = 0.12 m\<close>, that is 6 px.
  Each of the \<open>N_MASSES + 1\<close> springs therefore spans 6 px, has rest length
  \<open>L0_M = 0.1 m\<close>, that is 5 px, and starts stretched by exactly 0.02 m.
\<close>

theorem fresh_chain_pretension:
  "LV_M = 0.12 \<and> L0_M = 0.1
   \<and> m_to_px LV_M = 6 \<and> m_to_px L0_M = 5
   \<and> position (left_anchor (build_chain [] [] [])) = (100, 300)
   \<and> (i < N_MASSES \<longrightarrow>
        position (bodies (build_chain [] [] []) ! i) = (100 + (real i + 1) * m_to_px LV_M, 300))
   \<and> right_anchor_pos (build_chain [] [] []) = (100 + (real N_MASSES + 1) * m_to_px LV_M, 300)
   \<and> endpoint_position (build_chain [] [] []) Right_anchor
        (anchor_b (springs (build_chain [] [] []) ! N_MASSES))
       = right_anchor_pos (build_chain [] [] [])
   \<and> (j \<le> N_MASSES \<longrightarrow>
        spring_length (build_chain [] [] []) (springs (build_chain [] [] []) ! j) = m_to_px LV_M
        \<and> rest_length (springs (build_chain [] [] []) ! j) = m_to_px L0_M
        \<and> (spring_length (build_chain [] [] []) (springs (build_chain [] [] []) ! j)
             - rest_length (springs (build_chain [] [] []) ! j)) / PIXELS_PER_METER = 0.02)"
proof -
  have lens: "LV_M = 0.12 \<and> L0_M = 0.1"
    by (simp add: LV_M_def L0_M_def)
  have anchors: "position (left_anchor (build_chain [] [] [])) = (100, 300)
     \<and> right_anchor_pos (build_chain [] [] []) = (100 + (real N_MASSES + 1) * m_to_px LV_M, 300)"
    by (simp add: left_anchor_fresh right_anchor_pos_fresh)
  have wall: "endpoint_position (build_chain [] [] []) Right_anchor
        (anchor_b (springs (build_chain [] [] []) ! N_MASSES))
       = right_anchor_pos (build_chain [] [] [])"
    by (simp add: springs_fresh_last DampedSpring_def endpoint_position_def vadd_def
        right_anchor_pos_fresh HEIGHT_def)
  have px: "m_to_px LV_M = 6 \<and> m_to_px L0_M = 5"
    by (simp add: span_px_value rest_px_value)
  have pos: "i < N_MASSES \<longrightarrow>
        position (bodies (build_chain [] [] []) ! i) = (100 + (real i + 1) * m_to_px LV_M, 300)"
    by (simp add: position_bodies_fresh)
  have stretch: "j \<le> N_MASSES \<longrightarrow>
        spring_length (build_chain [] [] []) (springs (build_chain [] [] []) ! j) = m_to_px LV_M
        \<and> rest_length (springs (build_chain [] [] []) ! j) = m_to_px L0_M
        \<and> (spring_length (build_chain [] [] []) (springs (build_chain [] [] []) ! j)
             - rest_length (springs (build_chain [] [] []) ! j)) / PIXELS_PER_METER = 0.02"
    by (simp add: spring_length_fresh rest_length_fresh span_px_value rest_px_value
        PIXELS_PER_METER_def)
  from lens px anchors pos wall stretch show ?thesis
    by blast
qed

theorem fresh_chain_pretension_witness:
  "(149::nat) < N_MASSES \<and> (150::nat) \<le> N_MASSES
   \<and> position (bodies (build_chain [] [] []) ! 149) = (1000, 300)
   \<and> right_anchor_pos (build_chain [] [] []) = (1006, 300)
   \<and> spring_length (build_chain [] [] []) (springs (build_chain [] [] []) ! 150) = 6
   \<and> rest_length (springs (build_chain [] [] []) ! 150) = 5"
  using fresh_chain_pretension [of 149 150] by (simp add: N_MASSES_def)

section \<open>The controller\<close>

subsection \<open>The physics step changes the bodies of the chain only\<close>

lemma space_step_bodies_only:
  "\<exists>bs. space_step h s = s\<lparr>chain := (chain s)\<lparr>bodies := bs\<rparr>\<rparr>"
proof (cases "h \<le> 0")
  case True
  then have "space_step h s = s\<lparr>chain := (chain s)\<lparr>bodies := bodies (chain s)\<rparr>\<rparr>"
    by (simp add: space_step_def)
  then show ?thesis ..
next
  case False
  then show ?thesis
    by (auto simp: space_step_def)
qed

lemma sub_steps_bodies_only:
  "\<exists>bs. ((\<lambda>s. space_step (dt s) s) ^^ n) s = s\<lparr>chain := (chain s)\<lparr>bodies := bs\<rparr>\<rparr>"
proof (induction n)
  case 0
  have "(((\<lambda>s. space_step (dt s) s) ^^ 0) s) = s\<lparr>chain := (chain s)\<lparr>bodies := bodies (chain s)\<rparr>\<rparr>"
    by simp
  then show ?case ..
next
  case (Suc n)
  then obtain bs where
    bs: "((\<lambda>s. space_step (dt s) s) ^^ n) s = s\<lparr>chain := (chain s)\<lparr>bodies := bs\<rparr>\<rparr>"
    by blast
  obtain bs' where "space_step (dt s) (s\<lparr>chain := (chain s)\<lparr>bodies := bs\<rparr>\<rparr>)
      = (s\<lparr>chain := (chain s)\<lparr>bodies := bs\<rparr>\<rparr>)\<lparr>chain :=
           (chain (s\<lparr>chain := (chain s)\<lparr>bodies := bs\<rparr>\<rparr>))\<lparr>bodies := bs'\<rparr>\<rparr>"
    using space_step_bodies_only by blast
  then have "((\<lambda>s. space_step (dt s) s) ^^ Suc n) s = s\<lparr>chain := (chain s)\<lparr>bodies := bs'\<rparr>\<rparr>"
    by (simp add: bs)
  then show ?case ..
qed

lemma run_physics_bodies_only:
  "\<exists>bs. run_physics s = s\<lparr>chain := (chain s)\<lparr>bodies := bs\<rparr>\<rparr>"
  unfolding run_physics_def by (rule sub_steps_bodies_only)

subsection \<open>The impulse and the reset\<close>

lemma apply_first_spring_impulse_position:
  "position (left_anchor (chain (apply_first_spring_impulse s)))
     = (fst (position (left_anchor (chain s))),
        snd (position (left_anchor (chain s))) - m_to_px (anchor_lift_m s))"
  by (simp add: apply_first_spring_impulse_def Let_def split: prod.split)

lemma apply_first_spring_impulse_applied:
  "impulse_applied (apply_first_spring_impulse s)"
  by (simp add: apply_first_spring_impulse_def Let_def split: prod.split)

lemma init_sim_fields:
  "chain init_sim = build_chain [] [] []"
  "\<not> impulse_applied init_sim"
  "running init_sim"
  "time_accum init_sim = 0"
  "anchor_lift_m init_sim = 1 / 2"
  "impulse_time_s init_sim = 1 / 4"
  "dt init_sim = 1 / 120"
  "physics_steps_per_frame init_sim = 2"
  "damping init_sim = 1"
  "space_damping init_sim = 1"
  "gravity_index init_sim = 0"
  "space_gravity init_sim = (0, 0)"
  "gravity_presets init_sim = [(0, 0), (0, 9.81 * PIXELS_PER_METER)]"
  by (simp_all add: init_sim_def Let_def ANCHOR_LIFT_M_def IMPULSE_TIME_S_def SPACE_DAMPING_def)

text \<open>
  Claim C2. In a state where the impulse is still pending, the \<open>i\<close> key moves the left
  anchor vertically by the configured lift: its \<open>y\<close> decreases by
  \<open>anchor_lift_m \<cdot> PIXELS_PER_METER\<close>, its \<open>x\<close> is unchanged, and \<open>impulse_applied\<close> is set.
\<close>

theorem trigger_impulse_lifts_anchor:
  "\<not> impulse_applied s \<Longrightarrow>
     position (left_anchor (chain (handle_event (KEYDOWN K_i) s)))
       = (fst (position (left_anchor (chain s))),
          snd (position (left_anchor (chain s))) - anchor_lift_m s * PIXELS_PER_METER)
     \<and> impulse_applied (handle_event (KEYDOWN K_i) s)"
  by (simp add: apply_first_spring_impulse_position apply_first_spring_impulse_applied
      m_to_px_def)

theorem trigger_impulse_lifts_anchor_witness:
  "\<not> impulse_applied init_sim
   \<and> position (left_anchor (chain init_sim)) = (100, 300)
   \<and> position (left_anchor (chain (handle_event (KEYDOWN K_i) init_sim))) = (100, 275)
   \<and> impulse_applied (handle_event (KEYDOWN K_i) init_sim)"
  using trigger_impulse_lifts_anchor [of init_sim]
  by (simp add: init_sim_fields left_anchor_fresh PIXELS_PER_METER_def)

lemma process_events_Nil: "process_events [] s = s"
  by (simp add: process_events_def)

lemma process_events_Cons:
  "process_events (e # evs) s = process_events evs (handle_event e s)"
  by (simp add: process_events_def)

lemma repeated_trigger_noop:
  "impulse_applied s \<Longrightarrow> process_events (replicate n (KEYDOWN K_i)) s = s"
  by (induction n) (simp_all add: process_events_Nil process_events_Cons)

text \<open>
  Claim C3. Once the impulse has been applied, the \<open>i\<close> key changes nothing: the whole
  state, the position of the left anchor included, stays as it is, however often the key
  is pressed. Only a reset clears \<open>impulse_applied\<close> again.
\<close>

theorem trigger_after_applied_noop:
  "impulse_applied s \<Longrightarrow>
     handle_event (KEYDOWN K_i) s = s
     \<and> process_events (replicate n (KEYDOWN K_i)) s = s
     \<and> \<not> impulse_applied (reset_sim s)"
  by (simp add: repeated_trigger_noop reset_sim_def)

theorem trigger_after_applied_noop_witness:
  "impulse_applied (handle_event (KEYDOWN K_i) init_sim)
   \<and> handle_event (KEYDOWN K_i) (handle_event (KEYDOWN K_i) init_sim)
       = handle_event (KEYDOWN K_i) init_sim
   \<and> process_events [KEYDOWN K_i, KEYDOWN K_i, KEYDOWN K_i] (handle_event (KEYDOWN K_i) init_sim)
       = handle_event (KEYDOWN K_i) init_sim"
proof -
  have applied: "impulse_applied (handle_event (KEYDOWN K_i) init_sim)"
    by (simp add: init_sim_fields apply_first_spring_impulse_applied)
  have "replicate 3 (KEYDOWN K_i) = [KEYDOWN K_i, KEYDOWN K_i, KEYDOWN K_i]"
    by (simp add: numeral_3_eq_3)
  with applied trigger_after_applied_noop [OF applied, of 3] show ?thesis
    by simp
qed

lemma map_position_fresh:
  "map position (bodies (build_chain [] [] []))
     = map (\<lambda>i. (100 + (real i + 1) * m_to_px LV_M, 300)) [0..<N_MASSES]"
  by (simp add: bodies_build_chain new_mass_def HEIGHT_def)

lemma map_velocity_fresh:
  "map velocity (bodies (build_chain [] [] [])) = replicate N_MASSES (0, 0)"
proof -
  have "velocity \<circ> new_mass 100 (m_to_px LV_M) (real HEIGHT * 0.5) = (\<lambda>i. (0, 0))"
    by (rule ext) (simp add: new_mass_def)
  then show ?thesis
    by (simp add: bodies_build_chain map_replicate_const)
qed

text \<open>
  Claim C5. Whatever the state before, after \<open>_reset_sim\<close> (the \<open>r\<close> key) the chain is the
  one \<open>__init__\<close> builds: \<open>N_MASSES\<close> bodies and \<open>N_MASSES + 1\<close> springs, every body at its
  construction position with velocity zero, the left anchor at its base position;
  \<open>impulse_applied\<close> is false and the time accumulator is zero.
\<close>

theorem reset_restores_construction_state:
  "handle_event (KEYDOWN K_r) s = reset_sim s
   \<and> chain (reset_sim s) = chain init_sim
   \<and> length (bodies (chain (reset_sim s))) = N_MASSES
   \<and> length (springs (chain (reset_sim s))) = N_MASSES + 1
   \<and> map position (bodies (chain (reset_sim s)))
       = map (\<lambda>i. (100 + (real i + 1) * m_to_px LV_M, 300)) [0..<N_MASSES]
   \<and> map velocity (bodies (chain (reset_sim s))) = replicate N_MASSES (0, 0)
   \<and> position (left_anchor (chain (reset_sim s))) = left_anchor_base (chain (reset_sim s))
   \<and> left_anchor_base (chain (reset_sim s)) = (100, 300)
   \<and> \<not> impulse_applied (reset_sim s)
   \<and> time_accum (reset_sim s) = 0"
proof -
  have "chain (reset_sim s) = build_chain [] [] []"
    by (simp add: reset_sim_def)
  moreover have "\<not> impulse_applied (reset_sim s) \<and> time_accum (reset_sim s) = 0"
    by (simp add: reset_sim_def)
  ultimately show ?thesis
    by (simp add: init_sim_fields length_bodies_fresh length_springs_fresh map_position_fresh
        map_velocity_fresh left_anchor_fresh left_anchor_base_fresh)
qed

subsection \<open>The invariant holds in every state of the loop\<close>

lemma run_physics_fields:
  "gravity_presets (run_physics s) = gravity_presets s"
  "gravity_index (run_physics s) = gravity_index s"
  "space_gravity (run_physics s) = space_gravity s"
  "damping (run_physics s) = damping s"
  "space_damping (run_physics s) = space_damping s"
  "impulse_time_s (run_physics s) = impulse_time_s s"
  "anchor_lift_m (run_physics s) = anchor_lift_m s"
  "dt (run_physics s) = dt s"
  "physics_steps_per_frame (run_physics s) = physics_steps_per_frame s"
  "running (run_physics s) = running s"
  "time_accum (run_physics s) = time_accum s"
  "impulse_applied (run_physics s) = impulse_applied s"
  "left_anchor (chain (run_physics s)) = left_anchor (chain s)"
  "left_anchor_base (chain (run_physics s)) = left_anchor_base (chain s)"
  "right_anchor_pos (chain (run_physics s)) = right_anchor_pos (chain s)"
  "springs (chain (run_physics s)) = springs (chain s)"
  using run_physics_bodies_only [of s] by auto

lemma wall_value: "(100 + (real N_MASSES + 1) * m_to_px LV_M, 300) = (1006, 300)"
  by (simp add: span_px_value N_MASSES_def)

lemma params_ok_init: "params_ok init_sim"
  by (simp add: params_ok_def init_sim_fields right_anchor_pos_fresh wall_value)

lemma params_ok_impulse: "params_ok s \<Longrightarrow> params_ok (apply_first_spring_impulse s)"
  by (simp add: params_ok_def apply_first_spring_impulse_def Let_def split: prod.split)

lemma params_ok_reset: "params_ok s \<Longrightarrow> params_ok (reset_sim s)"
  by (simp add: params_ok_def reset_sim_def right_anchor_pos_fresh wall_value)

lemma params_ok_key: "params_ok s \<Longrightarrow> params_ok (handle_event (KEYDOWN k) s)"
proof (cases k)
  case K_g
  assume "params_ok s"
  then show ?thesis
    unfolding K_g by (auto simp: params_ok_def Let_def less_Suc_eq numeral_2_eq_2)
next
  case K_i
  assume "params_ok s"
  then show ?thesis
    unfolding K_i by (simp add: params_ok_impulse)
next
  case K_r
  assume "params_ok s"
  then show ?thesis
    unfolding K_r by (simp add: params_ok_reset)
qed (simp_all add: params_ok_def Let_def)

lemma params_ok_event: "params_ok s \<Longrightarrow> params_ok (handle_event e s)"
  by (cases e) (simp_all add: params_ok_key, simp_all add: params_ok_def)

lemma params_ok_events: "params_ok s \<Longrightarrow> params_ok (process_events evs s)"
  by (induction evs arbitrary: s) (simp_all add: process_events_Nil process_events_Cons params_ok_event)

lemma params_ok_timer: "params_ok s \<Longrightarrow> params_ok (run_impulse_timer s)"
proof -
  assume ok: "params_ok s"
  then have "params_ok (s\<lparr>time_accum := time_accum s + dt s * real (physics_steps_per_frame s)\<rparr>)"
    by (simp add: params_ok_def)
  with ok show ?thesis
    by (simp add: run_impulse_timer_def Let_def params_ok_impulse)
qed

lemma params_ok_physics: "params_ok s \<Longrightarrow> params_ok (run_physics s)"
  by (simp add: params_ok_def run_physics_fields)

lemma params_ok_iteration: "params_ok s \<Longrightarrow> params_ok (run_iteration evs s)"
  by (simp add: run_iteration_def params_ok_physics params_ok_timer params_ok_events)

lemma params_ok_run: "params_ok s \<Longrightarrow> params_ok (run frames s)"
  by (induction frames arbitrary: s) (simp_all add: params_ok_iteration)

lemma params_ok_reachable: "params_ok (process_events evs (run frames init_sim))"
  by (simp add: params_ok_events params_ok_run params_ok_init)

text \<open>
  Claim C7. In every state the program can be in when a key is handled (any frames run
  from the initial state, then any events of the current frame), the keys that tune a
  parameter leave it in range: after \<open>1\<close> or \<open>2\<close> the damping, also that of the space, is in
  \<open>[0, 1)\<close>; after \<open>3\<close> or \<open>4\<close> the lift is in \<open>[0, 2]\<close> m; after \<open>5\<close> or \<open>6\<close> the trigger
  time is in \<open>[0, 5]\<close> s.
\<close>

theorem live_parameters_clamped:
  "(let s = process_events evs (run frames init_sim);
        down = handle_event (KEYDOWN K_1) s; up = handle_event (KEYDOWN K_2) s;
        lower = handle_event (KEYDOWN K_3) s; higher = handle_event (KEYDOWN K_4) s;
        earlier = handle_event (KEYDOWN K_5) s; later = handle_event (KEYDOWN K_6) s
    in 0 \<le> damping down \<and> damping down < 1 \<and> space_damping down = damping down
       \<and> 0 \<le> damping up \<and> damping up < 1 \<and> space_damping up = damping up
       \<and> 0 \<le> anchor_lift_m lower \<and> anchor_lift_m lower \<le> 2
       \<and> 0 \<le> anchor_lift_m higher \<and> anchor_lift_m higher \<le> 2
       \<and> 0 \<le> impulse_time_s earlier \<and> impulse_time_s earlier \<le> 5
       \<and> 0 \<le> impulse_time_s later \<and> impulse_time_s later \<le> 5)"
proof -
  have "params_ok (process_events evs (run frames init_sim))"
    by (rule params_ok_reachable)
  then show ?thesis
    by (simp add: params_ok_def Let_def)
qed

text \<open>
  Claim C10. In every state the program can be in, the gravity of the space is one of
  the two presets \<open>(0, 0)\<close> and \<open>(0, 9.81 \<cdot> PIXELS_PER_METER)\<close>; the \<open>g\<close> key switches from
  either preset to the other, and a reset keeps the preset selected.
\<close>

theorem gravity_is_a_preset:
  "(let s = process_events evs (run frames init_sim)
    in (space_gravity s = (0, 0) \<or> space_gravity s = (0, 9.81 * PIXELS_PER_METER))
       \<and> space_gravity (handle_event (KEYDOWN K_g) s)
           = (if space_gravity s = (0, 0) then (0, 9.81 * PIXELS_PER_METER) else (0, 0))
       \<and> space_gravity (reset_sim s) = space_gravity s)"
proof -
  have ok: "params_ok (process_events evs (run frames init_sim))"
    by (rule params_ok_reachable)
  then have "gravity_index (process_events evs (run frames init_sim)) = 0
      \<or> gravity_index (process_events evs (run frames init_sim)) = 1"
    by (auto simp: params_ok_def)
  with ok show ?thesis
    by (auto simp: params_ok_def Let_def reset_sim_def PIXELS_PER_METER_def)
qed

subsection \<open>The one-shot timer\<close>

lemma run_impulse_timer_applied:
  "impulse_applied s \<Longrightarrow> run_impulse_timer s = s"
  by (simp add: run_impulse_timer_def)

lemma run_impulse_timer_waiting:
  "\<not> impulse_applied s \<Longrightarrow>
   time_accum s + dt s * real (physics_steps_per_frame s) < impulse_time_s s \<Longrightarrow>
   run_impulse_timer s
     = s\<lparr>time_accum := time_accum s + dt s * real (physics_steps_per_frame s)\<rparr>"
  by (simp add: run_impulse_timer_def Let_def)

lemma run_impulse_timer_due:
  "\<not> impulse_applied s \<Longrightarrow>
   impulse_time_s s \<le> time_accum s + dt s * real (physics_steps_per_frame s) \<Longrightarrow>
   run_impulse_timer s
     = apply_first_spring_impulse
         (s\<lparr>time_accum := time_accum s + dt s * real (physics_steps_per_frame s)\<rparr>)"
  by (simp add: run_impulse_timer_def Let_def)

lemma run_impulse_timer_time_accum:
  "time_accum (run_impulse_timer s)
     = (if impulse_applied s then time_accum s
        else time_accum s + dt s * real (physics_steps_per_frame s))"
  by (simp add: run_impulse_timer_def Let_def apply_first_spring_impulse_def split: prod.split)

lemma run_impulse_timer_outcome:
  "impulse_applied (run_impulse_timer s)
     = (impulse_applied s
        \<or> impulse_time_s s \<le> time_accum s + dt s * real (physics_steps_per_frame s))"
  "position (left_anchor (chain (run_impulse_timer s)))
     = (if \<not> impulse_applied s
           \<and> impulse_time_s s \<le> time_accum s + dt s * real (physics_steps_per_frame s)
        then (fst (position (left_anchor (chain s))),
              snd (position (left_anchor (chain s))) - m_to_px (anchor_lift_m s))
        else position (left_anchor (chain s)))"
  by (simp_all add: run_impulse_timer_def Let_def apply_first_spring_impulse_def
      split: prod.split)

lemma run_iteration_time_accum:
  "time_accum (run_iteration evs s)
     = (if impulse_applied (process_events evs s) then time_accum (process_events evs s)
        else time_accum (process_events evs s)
             + dt (process_events evs s)
               * real (physics_steps_per_frame (process_events evs s)))"
  by (simp add: run_iteration_def run_physics_fields run_impulse_timer_time_accum)

lemma run_iteration_idle: "run_iteration [] s = run_physics (run_impulse_timer s)"
  by (simp add: run_iteration_def process_events_Nil)

text \<open>Frames without events after the impulse: nothing but the bodies changes any more.\<close>

lemma idle_frames_applied:
  "running s \<Longrightarrow> impulse_applied s \<Longrightarrow>
     \<exists>bs. run (replicate n []) s = s\<lparr>chain := (chain s)\<lparr>bodies := bs\<rparr>\<rparr>"
proof (induction n arbitrary: s)
  case 0
  have "run (replicate 0 []) s = s\<lparr>chain := (chain s)\<lparr>bodies := bodies (chain s)\<rparr>\<rparr>"
    by simp
  then show ?case ..
next
  case (Suc n)
  obtain bs where bs: "run_physics s = s\<lparr>chain := (chain s)\<lparr>bodies := bs\<rparr>\<rparr>"
    using run_physics_bodies_only by blast
  let ?s1 = "s\<lparr>chain := (chain s)\<lparr>bodies := bs\<rparr>\<rparr>"
  from Suc.prems have step: "run_iteration [] s = ?s1"
    by (simp add: run_iteration_idle run_impulse_timer_applied bs)
  from Suc.prems have "running ?s1" and "impulse_applied ?s1"
    by simp_all
  then obtain bs' where "run (replicate n []) ?s1 = ?s1\<lparr>chain := (chain ?s1)\<lparr>bodies := bs'\<rparr>\<rparr>"
    using Suc.IH by blast
  with Suc.prems step
  have "run (replicate (Suc n) []) s = s\<lparr>chain := (chain s)\<lparr>bodies := bs'\<rparr>\<rparr>"
    by simp
  then show ?case ..
qed

lemma idle_frames_applied_fields:
  assumes "running s" and "impulse_applied s"
  shows "impulse_applied (run (replicate n []) s)"
    and "left_anchor (chain (run (replicate n []) s)) = left_anchor (chain s)"
    and "time_accum (run (replicate n []) s) = time_accum s"
  using idle_frames_applied [OF assms, of n] assms(2) by auto

lemma run_append: "run (frames @ frames') s = run frames' (run frames s)"
proof (induction frames arbitrary: s)
  case Nil
  show ?case by simp
next
  case (Cons evs frames)
  show ?case
  proof (cases "running s")
    case True
    with Cons show ?thesis by simp
  next
    case False
    then have "run frames' s = s"
      by (cases frames') simp_all
    with False show ?thesis by simp
  qed
qed

lemma run_impulse_timer_params:
  "running (run_impulse_timer s) = running s"
  "dt (run_impulse_timer s) = dt s"
  "physics_steps_per_frame (run_impulse_timer s) = physics_steps_per_frame s"
  "impulse_time_s (run_impulse_timer s) = impulse_time_s s"
  "anchor_lift_m (run_impulse_timer s) = anchor_lift_m s"
  by (simp_all add: run_impulse_timer_def Let_def apply_first_spring_impulse_def
      split: prod.split)

text \<open>Frames without events keep the loop running and the timer's parameters as they are.\<close>

lemma idle_frames_params:
  "running (run (replicate n []) s) = running s
   \<and> dt (run (replicate n []) s) = dt s
   \<and> physics_steps_per_frame (run (replicate n []) s) = physics_steps_per_frame s
   \<and> impulse_time_s (run (replicate n []) s) = impulse_time_s s
   \<and> anchor_lift_m (run (replicate n []) s) = anchor_lift_m s"
proof (induction n arbitrary: s)
  case 0
  show ?case by simp
next
  case (Suc n)
  show ?case
  proof (cases "running s")
    case True
    then have "run (replicate (Suc n) []) s = run (replicate n []) (run_iteration [] s)"
      by simp
    then show ?thesis
      by (simp only: Suc.IH) (simp add: run_iteration_idle run_physics_fields
          run_impulse_timer_params)
  next
    case False
    then show ?thesis by simp
  qed
qed

lemma idle_frames_Suc:
  assumes "running s"
  shows "run (replicate (Suc n) []) s = run_iteration [] (run (replicate n []) s)"
proof -
  have "replicate (Suc n) [] = replicate n ([] :: event list) @ [[]]"
    by (simp add: replicate_append_same)
  then have "run (replicate (Suc n) []) s = run [[]] (run (replicate n []) s)"
    by (simp only: run_append)
  with assms show ?thesis
    by (simp add: idle_frames_params)
qed

text \<open>
  Frames without events from a state where the impulse is pending, followed through the
  accumulator itself: while the impulse is still pending the anchor has not moved and the
  accumulator is below the trigger time; once the impulse is applied the anchor has been
  lifted once and the accumulator has reached the trigger time.
\<close>

lemma idle_frames_trace:
  assumes "running s" and "\<not> impulse_applied s"
  shows "(\<not> impulse_applied (run (replicate n []) s) \<longrightarrow>
            left_anchor (chain (run (replicate n []) s)) = left_anchor (chain s)
            \<and> (1 \<le> n \<longrightarrow> time_accum (run (replicate n []) s) < impulse_time_s s))
         \<and> (impulse_applied (run (replicate n []) s) \<longrightarrow>
            position (left_anchor (chain (run (replicate n []) s)))
              = (fst (position (left_anchor (chain s))),
                 snd (position (left_anchor (chain s))) - m_to_px (anchor_lift_m s))
            \<and> impulse_time_s s \<le> time_accum (run (replicate n []) s))"
  using assms
proof (induction n arbitrary: s)
  case 0
  then show ?case by simp
next
  case (Suc n)
  let ?d = "dt s * real (physics_steps_per_frame s)"
  let ?s1 = "run_iteration [] s"
  have unfold: "run (replicate (Suc n) []) s = run (replicate n []) ?s1"
    using Suc.prems(1) by simp
  show ?case
  proof (cases "impulse_time_s s \<le> time_accum s + ?d")
    case True
    with Suc.prems have s1: "?s1 = run_physics (apply_first_spring_impulse
        (s\<lparr>time_accum := time_accum s + ?d\<rparr>))"
      by (simp add: run_iteration_idle run_impulse_timer_due)
    from Suc.prems have "running ?s1" and "impulse_applied ?s1"
      and "position (left_anchor (chain ?s1))
             = (fst (position (left_anchor (chain s))),
                snd (position (left_anchor (chain s))) - m_to_px (anchor_lift_m s))"
      and "time_accum ?s1 = time_accum s + ?d"
      unfolding s1
      by (simp_all add: run_physics_fields apply_first_spring_impulse_applied
          apply_first_spring_impulse_position)
        (simp_all add: apply_first_spring_impulse_def Let_def split: prod.split)
    with True have "impulse_applied (run (replicate n []) ?s1)"
      and "position (left_anchor (chain (run (replicate n []) ?s1)))
             = (fst (position (left_anchor (chain s))),
                snd (position (left_anchor (chain s))) - m_to_px (anchor_lift_m s))"
      and "impulse_time_s s \<le> time_accum (run (replicate n []) ?s1)"
      by (simp_all add: idle_frames_applied_fields)
    then show ?thesis
      unfolding unfold by simp
  next
    case False
    with Suc.prems have s1: "?s1 = run_physics (s\<lparr>time_accum := time_accum s + ?d\<rparr>)"
      by (simp add: run_iteration_idle run_impulse_timer_waiting)
    from Suc.prems have fields: "running ?s1" "\<not> impulse_applied ?s1"
      "time_accum ?s1 = time_accum s + ?d" "impulse_time_s ?s1 = impulse_time_s s"
      "anchor_lift_m ?s1 = anchor_lift_m s"
      "left_anchor (chain ?s1) = left_anchor (chain s)"
      unfolding s1 by (simp_all add: run_physics_fields)
    note IH = Suc.IH [OF fields(1) fields(2)]
    show ?thesis
    proof (cases "n = 0")
      case True
      with False fields show ?thesis
        unfolding unfold by simp
    next
      case nonzero: False
      then have "1 \<le> n" by simp
      with IH show ?thesis
        unfolding unfold by (simp add: fields)
    qed
  qed
qed

text \<open>
  Two bounds on when the timer fires in frames without events: it has not fired while the
  time added stays below the trigger time, and it has fired one frame after the time
  added has reached it.
\<close>

lemma idle_frames_waiting:
  assumes "running s" and "\<not> impulse_applied s"
    and "0 \<le> dt s * real (physics_steps_per_frame s)"
    and "time_accum s + real n * (dt s * real (physics_steps_per_frame s)) < impulse_time_s s"
  shows "\<not> impulse_applied (run (replicate n []) s)"
  using assms
proof (induction n arbitrary: s)
  case 0
  then show ?case by simp
next
  case (Suc n)
  let ?d = "dt s * real (physics_steps_per_frame s)"
  let ?s1 = "run_iteration [] s"
  have "0 \<le> real n * ?d"
    using Suc.prems(3) by simp
  with Suc.prems(4) have now: "time_accum s + ?d < impulse_time_s s"
    and rest: "(time_accum s + ?d) + real n * ?d < impulse_time_s s"
    by (simp_all add: algebra_simps)
  with Suc.prems have s1: "?s1 = run_physics (s\<lparr>time_accum := time_accum s + ?d\<rparr>)"
    by (simp add: run_iteration_idle run_impulse_timer_waiting)
  from Suc.prems have fields: "running ?s1" "\<not> impulse_applied ?s1"
    "dt ?s1 = dt s" "physics_steps_per_frame ?s1 = physics_steps_per_frame s"
    "time_accum ?s1 = time_accum s + ?d" "impulse_time_s ?s1 = impulse_time_s s"
    unfolding s1 by (simp_all add: run_physics_fields)
  from fields Suc.prems(3) rest
  have "\<not> impulse_applied (run (replicate n []) ?s1)"
    by (intro Suc.IH) simp_all
  with Suc.prems(1) show ?case by simp
qed

lemma idle_frames_overdue:
  assumes "running s" and "\<not> impulse_applied s"
    and "0 \<le> dt s * real (physics_steps_per_frame s)"
    and "impulse_time_s s \<le> time_accum s + real n * (dt s * real (physics_steps_per_frame s))"
  shows "impulse_applied (run (replicate (Suc n) []) s)"
  using assms
proof (induction n arbitrary: s)
  case 0
  then have "impulse_time_s s \<le> time_accum s + dt s * real (physics_steps_per_frame s)"
    by simp
  with 0 show ?case
    by (simp add: run_iteration_idle run_physics_fields run_impulse_timer_outcome(1))
next
  case (Suc n)
  let ?d = "dt s * real (physics_steps_per_frame s)"
  let ?s1 = "run_iteration [] s"
  have unfold: "run (replicate (Suc (Suc n)) []) s = run (replicate (Suc n) []) ?s1"
    using Suc.prems(1) by simp
  have s1_running: "running ?s1"
    using Suc.prems(1) by (simp add: run_iteration_idle run_physics_fields run_impulse_timer_params)
  show ?case
  proof (cases "impulse_time_s s \<le> time_accum s + ?d")
    case True
    with Suc.prems have "impulse_applied ?s1"
      by (simp add: run_iteration_idle run_physics_fields run_impulse_timer_outcome(1))
    with s1_running show ?thesis
      unfolding unfold by (rule idle_frames_applied_fields(1))
  next
    case False
    with Suc.prems have s1: "?s1 = run_physics (s\<lparr>time_accum := time_accum s + ?d\<rparr>)"
      by (simp add: run_iteration_idle run_impulse_timer_waiting)
    from Suc.prems have fields: "\<not> impulse_applied ?s1"
      "dt ?s1 = dt s" "physics_steps_per_frame ?s1 = physics_steps_per_frame s"
      "time_accum ?s1 = time_accum s + ?d" "impulse_time_s ?s1 = impulse_time_s s"
      unfolding s1 by (simp_all add: run_physics_fields)
    from Suc.prems(4) have "impulse_time_s s \<le> (time_accum s + ?d) + real n * ?d"
      by (simp add: algebra_simps)
    with s1_running fields Suc.prems(3)
    have "impulse_applied (run (replicate (Suc n) []) ?s1)"
      by (intro Suc.IH) simp_all
    then show ?thesis
      unfolding unfold .
  qed
qed

subsection \<open>The time accumulator\<close>

lemma init_sim_applied_after_30: "impulse_applied (run (replicate 30 []) init_sim)"
proof -
  have "impulse_applied (run (replicate (Suc 29) []) init_sim)"
    by (rule idle_frames_overdue) (simp_all add: init_sim_fields)
  then show ?thesis by simp
qed

text \<open>
  Claim C8, as stated, fails: the frame loop adds to \<open>time_accum\<close> under the guard
  \<open>if not self.impulse_applied\<close> only. From the initial state the timer has fired within
  the first 30 frames (\<open>30 \<cdot> 2 \<cdot> 1/120 = 0.5\<close> s, the trigger time is \<open>0.25\<close> s), and frame
  31 leaves the accumulator as it is.
\<close>

theorem time_accum_every_tick_counterexample:
  "time_accum (run_iteration [] (run (replicate 30 []) init_sim))
     \<noteq> time_accum (run (replicate 30 []) init_sim)
         + real (physics_steps_per_frame init_sim) * dt init_sim"
  by (simp add: run_iteration_time_accum process_events_Nil init_sim_applied_after_30
      init_sim_fields)

text \<open>
  Claim C8, amended. An iteration of the frame loop that finds the impulse pending after
  its events adds \<open>dt \<cdot> physics_steps_per_frame\<close> to \<open>time_accum\<close>; an iteration that finds
  the impulse applied leaves \<open>time_accum\<close> unchanged. In every state of the loop that
  increment is \<open>2 \<cdot> 1/120\<close> s.
\<close>

theorem time_accum_counts_pending_frames:
  "time_accum (run_iteration evs s)
     = (if impulse_applied (process_events evs s) then time_accum (process_events evs s)
        else time_accum (process_events evs s)
             + dt (process_events evs s)
               * real (physics_steps_per_frame (process_events evs s)))
   \<and> dt (process_events evs' (run frames init_sim))
       * real (physics_steps_per_frame (process_events evs' (run frames init_sim)))
     = 2 * (1 / 120)"
proof -
  have "params_ok (process_events evs' (run frames init_sim))"
    by (rule params_ok_reachable)
  then show ?thesis
    by (simp add: run_iteration_time_accum params_ok_def)
qed

subsection \<open>The timed impulse\<close>

lemma event_keeps_timer:
  assumes "e \<noteq> KEYDOWN K_i" and "e \<noteq> KEYDOWN K_r"
  shows "chain (handle_event e s) = chain s"
    and "impulse_applied (handle_event e s) = impulse_applied s"
    and "time_accum (handle_event e s) = time_accum s"
    and "dt (handle_event e s) = dt s"
    and "physics_steps_per_frame (handle_event e s) = physics_steps_per_frame s"
proof -
  show "chain (handle_event e s) = chain s"
  proof (cases e)
    case (KEYDOWN k)
    with assms show ?thesis by (cases k) (simp_all add: Let_def)
  qed simp_all
  show "impulse_applied (handle_event e s) = impulse_applied s"
  proof (cases e)
    case (KEYDOWN k)
    with assms show ?thesis by (cases k) (simp_all add: Let_def)
  qed simp_all
  show "time_accum (handle_event e s) = time_accum s"
  proof (cases e)
    case (KEYDOWN k)
    with assms show ?thesis by (cases k) (simp_all add: Let_def)
  qed simp_all
  show "dt (handle_event e s) = dt s"
  proof (cases e)
    case (KEYDOWN k)
    with assms show ?thesis by (cases k) (simp_all add: Let_def)
  qed simp_all
  show "physics_steps_per_frame (handle_event e s) = physics_steps_per_frame s"
  proof (cases e)
    case (KEYDOWN k)
    with assms show ?thesis by (cases k) (simp_all add: Let_def)
  qed simp_all
qed

lemma events_keep_timer:
  "KEYDOWN K_i \<notin> set evs \<Longrightarrow> KEYDOWN K_r \<notin> set evs \<Longrightarrow>
     chain (process_events evs s) = chain s
     \<and> impulse_applied (process_events evs s) = impulse_applied s
     \<and> time_accum (process_events evs s) = time_accum s
     \<and> dt (process_events evs s) = dt s
     \<and> physics_steps_per_frame (process_events evs s) = physics_steps_per_frame s"
proof (induction evs arbitrary: s)
  case Nil
  then show ?case by (simp add: process_events_Nil)
next
  case (Cons e evs)
  then have "e \<noteq> KEYDOWN K_i" and "e \<noteq> KEYDOWN K_r"
    by auto
  note kept = event_keeps_timer [OF this]
  from Cons show ?case
    by (simp add: process_events_Cons kept)
qed

text \<open>
  Over the reals fifteen increments of \<open>2 \<cdot> 1/120\<close> are exactly the default trigger time
  \<open>0.25\<close>; in the program the fifteen rounded additions end just below it, and the timer
  fires one frame later. The statements about a run of frames therefore speak of the
  accumulator itself, not of a multiple of the time step, and the examples stay away from
  the frame of the tie.
\<close>

text \<open>
  Claim C4. First, one iteration of the frame loop whose events contain neither the
  \<open>i\<close> key nor a reset: the left anchor moves in it exactly if the impulse is pending and
  the time accumulated with this frame reaches the trigger time, and then by the lift;
  \<open>impulse_applied\<close> holds afterwards exactly if it held before or the frame fired.
  Second, a run of frames without events from a state where the impulse is pending.
  Frame \<open>n + 1\<close> finds the impulse applied or applies it exactly if the accumulator after
  frame \<open>n\<close> plus the increment reaches the trigger time. As long as the impulse is
  pending after \<open>n\<close> frames, the anchor is where it was and the accumulator is below the
  trigger time. Once it is applied, the anchor has been lifted exactly once, the
  accumulator has reached the trigger time, and every later frame leaves the anchor as it
  is.
\<close>

theorem timed_impulse_fires_once:
  "(KEYDOWN K_i \<notin> set evs \<and> KEYDOWN K_r \<notin> set evs \<longrightarrow>
      impulse_applied (run_iteration evs s)
        = (impulse_applied s
           \<or> impulse_time_s (process_events evs s)
               \<le> time_accum s + dt s * real (physics_steps_per_frame s))
      \<and> position (left_anchor (chain (run_iteration evs s)))
        = (if \<not> impulse_applied s
              \<and> impulse_time_s (process_events evs s)
                  \<le> time_accum s + dt s * real (physics_steps_per_frame s)
           then (fst (position (left_anchor (chain s))),
                 snd (position (left_anchor (chain s)))
                   - m_to_px (anchor_lift_m (process_events evs s)))
           else position (left_anchor (chain s))))
   \<and> (running s \<and> \<not> impulse_applied s \<longrightarrow>
      impulse_applied (run (replicate (Suc n) []) s)
        = (impulse_applied (run (replicate n []) s)
           \<or> impulse_time_s s
               \<le> time_accum (run (replicate n []) s)
                   + dt s * real (physics_steps_per_frame s))
      \<and> (\<not> impulse_applied (run (replicate n []) s) \<longrightarrow>
            left_anchor (chain (run (replicate n []) s)) = left_anchor (chain s)
            \<and> (1 \<le> n \<longrightarrow> time_accum (run (replicate n []) s) < impulse_time_s s))
      \<and> (impulse_applied (run (replicate n []) s) \<longrightarrow>
            position (left_anchor (chain (run (replicate n []) s)))
              = (fst (position (left_anchor (chain s))),
                 snd (position (left_anchor (chain s))) - m_to_px (anchor_lift_m s))
            \<and> impulse_time_s s \<le> time_accum (run (replicate n []) s)
            \<and> impulse_applied (run (replicate (n + m) []) s)
            \<and> left_anchor (chain (run (replicate (n + m) []) s))
                = left_anchor (chain (run (replicate n []) s))))"
proof (intro conjI impI)
  assume quiet: "KEYDOWN K_i \<notin> set evs \<and> KEYDOWN K_r \<notin> set evs"
  then have kept: "chain (process_events evs s) = chain s"
    "impulse_applied (process_events evs s) = impulse_applied s"
    "time_accum (process_events evs s) = time_accum s"
    "dt (process_events evs s) = dt s"
    "physics_steps_per_frame (process_events evs s) = physics_steps_per_frame s"
    using events_keep_timer [of evs s] by simp_all
  show "impulse_applied (run_iteration evs s)
        = (impulse_applied s
           \<or> impulse_time_s (process_events evs s)
               \<le> time_accum s + dt s * real (physics_steps_per_frame s))"
    by (simp add: run_iteration_def run_physics_fields run_impulse_timer_outcome(1) kept)
  show "position (left_anchor (chain (run_iteration evs s)))
        = (if \<not> impulse_applied s
              \<and> impulse_time_s (process_events evs s)
                  \<le> time_accum s + dt s * real (physics_steps_per_frame s)
           then (fst (position (left_anchor (chain s))),
                 snd (position (left_anchor (chain s)))
                   - m_to_px (anchor_lift_m (process_events evs s)))
           else position (left_anchor (chain s)))"
    by (simp add: run_iteration_def run_physics_fields run_impulse_timer_outcome(2) kept)
next
  assume pending: "running s \<and> \<not> impulse_applied s"
  then have "running s"
    by simp
  then have "run (replicate (Suc n) []) s = run_iteration [] (run (replicate n []) s)"
    by (rule idle_frames_Suc)
  then show "impulse_applied (run (replicate (Suc n) []) s)
        = (impulse_applied (run (replicate n []) s)
           \<or> impulse_time_s s
               \<le> time_accum (run (replicate n []) s)
                   + dt s * real (physics_steps_per_frame s))"
    by (simp add: run_iteration_idle run_physics_fields run_impulse_timer_outcome(1)
        idle_frames_params)
next
  assume pending: "running s \<and> \<not> impulse_applied s"
    and still: "\<not> impulse_applied (run (replicate n []) s)"
  with idle_frames_trace [of s n]
  show "left_anchor (chain (run (replicate n []) s)) = left_anchor (chain s)"
    by simp
next
  assume pending: "running s \<and> \<not> impulse_applied s"
    and still: "\<not> impulse_applied (run (replicate n []) s)"
    and "1 \<le> n"
  with idle_frames_trace [of s n]
  show "time_accum (run (replicate n []) s) < impulse_time_s s"
    by simp
next
  assume pending: "running s \<and> \<not> impulse_applied s"
    and fired: "impulse_applied (run (replicate n []) s)"
  with idle_frames_trace [of s n]
  show "position (left_anchor (chain (run (replicate n []) s)))
              = (fst (position (left_anchor (chain s))),
                 snd (position (left_anchor (chain s))) - m_to_px (anchor_lift_m s))"
    by simp
next
  assume pending: "running s \<and> \<not> impulse_applied s"
    and fired: "impulse_applied (run (replicate n []) s)"
  with idle_frames_trace [of s n]
  show "impulse_time_s s \<le> time_accum (run (replicate n []) s)"
    by simp
next
  assume pending: "running s \<and> \<not> impulse_applied s"
    and fired: "impulse_applied (run (replicate n []) s)"
  from pending have going: "running (run (replicate n []) s)"
    by (simp add: idle_frames_params)
  have later: "run (replicate (n + m) []) s = run (replicate m []) (run (replicate n []) s)"
    by (simp add: replicate_add run_append)
  from going fired show "impulse_applied (run (replicate (n + m) []) s)"
    unfolding later by (rule idle_frames_applied_fields(1))
  from going fired show "left_anchor (chain (run (replicate (n + m) []) s))
                = left_anchor (chain (run (replicate n []) s))"
    unfolding later by (rule idle_frames_applied_fields(2))
qed

theorem timed_impulse_fires_once_witness:
  "KEYDOWN K_i \<notin> set [KEYDOWN K_6] \<and> KEYDOWN K_r \<notin> set [KEYDOWN K_6]
   \<and> running init_sim \<and> \<not> impulse_applied init_sim
   \<and> \<not> impulse_applied (run_iteration [KEYDOWN K_6] init_sim)
   \<and> position (left_anchor (chain (run_iteration [KEYDOWN K_6] init_sim))) = (100, 300)
   \<and> \<not> impulse_applied (run (replicate 14 []) init_sim)
   \<and> (1::nat) \<le> 14
   \<and> position (left_anchor (chain (run (replicate 14 []) init_sim))) = (100, 300)
   \<and> time_accum (run (replicate 14 []) init_sim) < 1 / 4
   \<and> impulse_applied (run (replicate 16 []) init_sim)
   \<and> position (left_anchor (chain (run (replicate 16 []) init_sim))) = (100, 275)
   \<and> 1 / 4 \<le> time_accum (run (replicate 16 []) init_sim)
   \<and> impulse_applied (run (replicate 400 []) init_sim)
   \<and> position (left_anchor (chain (run (replicate 400 []) init_sim))) = (100, 275)"
proof -
  have waiting: "\<not> impulse_applied (run (replicate 14 []) init_sim)"
    by (rule idle_frames_waiting) (simp_all add: init_sim_fields)
  have "impulse_applied (run (replicate (Suc 15) []) init_sim)"
    by (rule idle_frames_overdue) (simp_all add: init_sim_fields)
  then have fired: "impulse_applied (run (replicate 16 []) init_sim)"
    by simp
  from waiting fired
    timed_impulse_fires_once [of "[KEYDOWN K_6]" init_sim 14 0]
    timed_impulse_fires_once [of "[KEYDOWN K_6]" init_sim 16 384]
  show ?thesis
    by (simp add: init_sim_fields left_anchor_fresh process_events_Nil process_events_Cons
        m_to_px_def PIXELS_PER_METER_def)
qed

subsection \<open>The anchors\<close>

lemma space_step_anchors:
  "left_anchor (chain (space_step h s)) = left_anchor (chain s)"
  "right_anchor_pos (chain (space_step h s)) = right_anchor_pos (chain s)"
  using space_step_bodies_only [of h s] by auto

lemma event_keeps_wall:
  assumes "e \<noteq> KEYDOWN K_r"
  shows "right_anchor_pos (chain (handle_event e s)) = right_anchor_pos (chain s)"
proof (cases e)
  case (KEYDOWN k)
  with assms show ?thesis
    by (cases k) (simp_all add: Let_def apply_first_spring_impulse_def split: prod.split)
qed simp_all

lemma timer_moves_anchor_by_impulse_only:
  assumes "left_anchor (chain (run_impulse_timer s)) \<noteq> left_anchor (chain s)"
  shows "\<not> impulse_applied s
    \<and> run_impulse_timer s = apply_first_spring_impulse
         (s\<lparr>time_accum := time_accum s + dt s * real (physics_steps_per_frame s)\<rparr>)"
proof -
  from assms have pending: "\<not> impulse_applied s"
    by (auto simp: run_impulse_timer_applied)
  have "impulse_time_s s \<le> time_accum s + dt s * real (physics_steps_per_frame s)"
  proof (rule ccontr)
    assume "\<not> impulse_time_s s \<le> time_accum s + dt s * real (physics_steps_per_frame s)"
    with pending have "run_impulse_timer s
        = s\<lparr>time_accum := time_accum s + dt s * real (physics_steps_per_frame s)\<rparr>"
      by (simp add: run_impulse_timer_waiting)
    with assms show False by simp
  qed
  with pending show ?thesis
    by (simp add: run_impulse_timer_due)
qed

lemma timer_keeps_wall:
  "right_anchor_pos (chain (run_impulse_timer s)) = right_anchor_pos (chain s)"
  by (simp add: run_impulse_timer_def Let_def apply_first_spring_impulse_def split: prod.split)

text \<open>
  Claim C6. The physics step (the integrator of the spec, sections 4.2 and 4.3) leaves
  the left anchor and the wall where they are, for every step size and every state, and
  so do the sub-steps of a frame. In the rest of the frame loop the left anchor changes
  only through \<open>_apply_first_spring_impulse\<close> (the \<open>i\<close> key or the timer) or through a
  reset; the wall is at \<open>(1006, 300)\<close> in every state of the loop.
\<close>

theorem anchors_immune_to_forces:
  "left_anchor (chain (space_step h s)) = left_anchor (chain s)
   \<and> right_anchor_pos (chain (space_step h s)) = right_anchor_pos (chain s)
   \<and> endpoint_position (chain (space_step h s)) Right_anchor a
       = endpoint_position (chain s) Right_anchor a
   \<and> left_anchor (chain (run_physics s)) = left_anchor (chain s)
   \<and> right_anchor_pos (chain (run_physics s)) = right_anchor_pos (chain s)
   \<and> (e \<noteq> KEYDOWN K_i \<and> e \<noteq> KEYDOWN K_r \<longrightarrow>
        left_anchor (chain (handle_event e s)) = left_anchor (chain s))
   \<and> (e \<noteq> KEYDOWN K_r \<longrightarrow>
        right_anchor_pos (chain (handle_event e s)) = right_anchor_pos (chain s))
   \<and> (left_anchor (chain (run_impulse_timer s)) \<noteq> left_anchor (chain s) \<longrightarrow>
        \<not> impulse_applied s
        \<and> run_impulse_timer s = apply_first_spring_impulse
             (s\<lparr>time_accum := time_accum s + dt s * real (physics_steps_per_frame s)\<rparr>))
   \<and> right_anchor_pos (chain (run_impulse_timer s)) = right_anchor_pos (chain s)
   \<and> right_anchor_pos (chain (process_events evs (run frames init_sim))) = (1006, 300)"
proof -
  have wall: "right_anchor_pos (chain (process_events evs (run frames init_sim))) = (1006, 300)"
    using params_ok_reachable [of evs frames] by (simp add: params_ok_def)
  have keys: "e \<noteq> KEYDOWN K_i \<and> e \<noteq> KEYDOWN K_r \<longrightarrow>
        left_anchor (chain (handle_event e s)) = left_anchor (chain s)"
    by (simp add: event_keeps_timer(1))
  have timer: "left_anchor (chain (run_impulse_timer s)) \<noteq> left_anchor (chain s) \<longrightarrow>
        \<not> impulse_applied s
        \<and> run_impulse_timer s = apply_first_spring_impulse
             (s\<lparr>time_accum := time_accum s + dt s * real (physics_steps_per_frame s)\<rparr>)"
    using timer_moves_anchor_by_impulse_only by blast
  have "endpoint_position (chain (space_step h s)) Right_anchor a
       = endpoint_position (chain s) Right_anchor a"
    by (simp add: endpoint_position_def)
  with wall keys timer show ?thesis
    by (simp add: space_step_anchors run_physics_fields event_keeps_wall timer_keeps_wall)
qed

theorem anchors_immune_to_forces_witness:
  "KEYDOWN K_g \<noteq> KEYDOWN K_i \<and> KEYDOWN K_g \<noteq> KEYDOWN K_r
   \<and> left_anchor (chain (run_impulse_timer (process_events (replicate 5 (KEYDOWN K_5)) init_sim)))
       \<noteq> left_anchor (chain (process_events (replicate 5 (KEYDOWN K_5)) init_sim))
   \<and> left_anchor (chain (handle_event (KEYDOWN K_g)
                           (process_events (replicate 5 (KEYDOWN K_5)) init_sim)))
       = left_anchor (chain init_sim)
   \<and> right_anchor_pos (chain (handle_event (KEYDOWN K_g)
                                (process_events (replicate 5 (KEYDOWN K_5)) init_sim)))
       = (1006, 300)
   \<and> position (left_anchor (chain (space_step (1 / 120)
                                     (process_events (replicate 5 (KEYDOWN K_5)) init_sim))))
       = (100, 300)
   \<and> position (left_anchor (chain (run_impulse_timer
                                     (process_events (replicate 5 (KEYDOWN K_5)) init_sim))))
       = (100, 275)"
proof -
  let ?s = "process_events (replicate 5 (KEYDOWN K_5)) init_sim"
  have "replicate 5 (KEYDOWN K_5)
      = [KEYDOWN K_5, KEYDOWN K_5, KEYDOWN K_5, KEYDOWN K_5, KEYDOWN K_5]"
    by (simp add: eval_nat_numeral)
  then have early: "?s = init_sim\<lparr>impulse_time_s := 0\<rparr>"
    by (simp add: process_events_Nil process_events_Cons init_sim_fields)
  have moved: "left_anchor (chain (run_impulse_timer ?s)) \<noteq> left_anchor (chain ?s)"
    unfolding early
    by (simp add: run_impulse_timer_def Let_def init_sim_fields apply_first_spring_impulse_def
        left_anchor_fresh m_to_px_def PIXELS_PER_METER_def)
  have lifted: "position (left_anchor (chain (apply_first_spring_impulse
        (init_sim\<lparr>impulse_time_s := 0, time_accum := 1 / 60\<rparr>)))) = (100, 275)"
    by (simp add: apply_first_spring_impulse_position init_sim_fields left_anchor_fresh
        m_to_px_def PIXELS_PER_METER_def)
  from moved lifted
    anchors_immune_to_forces [of "1 / 120" ?s "(0, 0)" "KEYDOWN K_g" "[]" "[]"]
  show ?thesis
    unfolding early
    by (simp add: init_sim_fields left_anchor_fresh right_anchor_pos_fresh wall_value)
qed

end
